theory Spec2Isabelle
  imports Complex_Main "HOL-Library.Sublist"
begin

section \<open>Data model\<close>

text \<open>
  The \<open>Product\<close> type of the point-of-sale screen. The declaration itself
  (\<open>types.ts\<close>) is not among the sources; the fields are the ones \<open>POS.tsx\<close>
  reads (\<open>id\<close>, \<open>name\<close>, \<open>category\<close>, \<open>price\<close>, \<open>stock\<close>, \<open>barcode\<close>,
  \<open>image_url\<close>). The two optional fields are \<open>option\<close>s: an absent \<open>barcode\<close>
  is \<open>undefined\<close> in the program and \<open>None\<close> here. Strings are lists of
  characters, compared element by element as \<open>===\<close> compares code units. A character
  is a code unit from U+0000 to U+00FF (the Latin-1 range), which is what the type
  \<open>char\<close> holds; strings with other code units are outside this model.
\<close>

record product =
  product_id :: string
  name :: string
  category :: string
  price :: rat
  stock :: int
  barcode :: "string option"
  image_url :: "string option"

section \<open>Catalog: search, categories and barcode lookup (POS.tsx)\<close>

subsection \<open>String helpers of the host language\<close>






subsection \<open>filteredProducts\<close>









subsection \<open>categories\<close>

text \<open>
  \<^verbatim>\<open>
  const categories = ['all', ...Array.from(new Set(products.map(p => p.category)))];
  \<close>
  A \<open>Set\<close> of the host language keeps its elements in insertion order and ignores
  the insertion of an element it already holds; \<open>Array.from\<close> lists them in that
  order. The set is therefore modelled as the list of its elements in insertion order.
\<close>

definition Set_add :: "'a list \<Rightarrow> 'a \<Rightarrow> 'a list" where
  "Set_add s x = (if x \<in> set s then s else s @ [x])"

definition Set_from :: "'a list \<Rightarrow> 'a list" where
  "Set_from xs = foldl Set_add [] xs"

definition categories :: "product list \<Rightarrow> string list" where
  "categories products = ''all'' # Set_from (map category products)"

text \<open>The specification's "distinct labels in first-seen order".\<close>

fun first_seen :: "'a list \<Rightarrow> 'a list" where
  "first_seen [] = []"
| "first_seen (x # xs) = x # removeAll x (first_seen xs)"

subsection \<open>Barcode lookup\<close>

text \<open>
  \<^verbatim>\<open>
  const product = products.find(p => p.barcode === barcode);
  \<close>
  \<open>Array.prototype.find\<close> is \<^const>\<open>find\<close>: the first element, from index 0, that
  satisfies the predicate, or \<open>undefined\<close> (\<open>None\<close>). A product without a barcode
  never satisfies \<open>p.barcode === barcode\<close>, since \<open>barcode\<close> is a string.
\<close>

definition findByBarcode :: "product list \<Rightarrow> string \<Rightarrow> product option" where
  "findByBarcode products code = find (\<lambda>p. barcode p = Some code) products"

subsection \<open>Sample catalog\<close>

definition cola :: product where
  "cola = \<lparr>product_id = ''1'', name = ''Cola'', category = ''drinks'', price = 3 / 2,
           stock = 10, barcode = Some ''111'', image_url = None\<rparr>"

definition chips :: product where
  "chips = \<lparr>product_id = ''2'', name = ''Potato Chips'', category = ''snacks'', price = 2,
            stock = 5, barcode = None, image_url = None\<rparr>"

definition cocoa :: product where
  "cocoa = \<lparr>product_id = ''3'', name = ''Hot COCOA'', category = ''drinks'', price = 4,
            stock = 7, barcode = Some ''111'', image_url = None\<rparr>"


definition misc :: product where
  "misc = \<lparr>product_id = ''4'', name = ''Gift Box'', category = ''all'', price = 9,
           stock = 1, barcode = Some ''aBc'', image_url = None\<rparr>"

section \<open>Cart\<close>

text \<open>
  A cart is the ordered list of its lines. The cart operations live in
  \<open>contexts/CartContext\<close>, which \<open>POS.tsx\<close> imports (\<open>useCart\<close>) and which is not
  among the sources; quantities are the host language's numbers, here integers.
\<close>

record cartLine =
  product :: product
  quantity :: int

type_synonym cart = "cartLine list"

definition lineFor :: "string \<Rightarrow> cartLine \<Rightarrow> bool" where
  "lineFor pid l = (product_id (product l) = pid)"

definition hasLine :: "cart \<Rightarrow> string \<Rightarrow> bool" where
  "hasLine items pid = list_ex (lineFor pid) items"

definition linesFor :: "string \<Rightarrow> cart \<Rightarrow> cart" where
  "linesFor pid items = filter (lineFor pid) items"

definition otherLines :: "string \<Rightarrow> cart \<Rightarrow> cart" where
  "otherLines pid items = filter (\<lambda>l. \<not> lineFor pid l) items"

text \<open>
  Modelled from the spec: \<open>addItem\<close> of the missing \<open>CartContext\<close>. "If a line for
  \<open>product.id\<close> exists, increment its quantity by 1; otherwise append a new line with
  quantity 1."
\<close>

definition addItem :: "product \<Rightarrow> cart \<Rightarrow> cart" where
  "addItem p items =
     (if hasLine items (product_id p)
      then map (\<lambda>l. if lineFor (product_id p) l then l\<lparr>quantity := quantity l + 1\<rparr> else l) items
      else items @ [\<lparr>product = p, quantity = 1\<rparr>])"

text \<open>
  Modelled from the spec: \<open>updateQuantity\<close> of the missing \<open>CartContext\<close>. "Sets the
  line's quantity to \<open>newQuantity\<close>; if \<open>newQuantity \<le> 0\<close>, removes the line. Unknown
  \<open>productId\<close> is a no-op."
\<close>

definition updateQuantity :: "string \<Rightarrow> int \<Rightarrow> cart \<Rightarrow> cart" where
  "updateQuantity productId newQuantity items =
     (if newQuantity \<le> 0
      then filter (\<lambda>l. \<not> lineFor productId l) items
      else map (\<lambda>l. if lineFor productId l then l\<lparr>quantity := newQuantity\<rparr> else l) items)"

section \<open>Handling a scanned barcode (POS.tsx)\<close>

text \<open>
  The part of the page that \<open>handleBarcodeScanned\<close> touches: the catalog, the cart,
  the flag that shows the scanner, the notification elements appended to
  \<open>document.body\<close> and the pending \<open>setTimeout\<close> callbacks. An element is known by the
  number of its creation; a timer is the time at which it is due, in milliseconds, and
  the element its callback removes.
\<close>

record notification =
  className :: string
  textContent :: string

record pos =
  products :: "product list"
  items :: cart
  showBarcodeScanner :: bool
  body :: "(nat \<times> notification) list"
  timers :: "(nat \<times> nat) list"
  created :: nat
  now :: nat

definition success_class :: string where
  "success_class = ''fixed top-4 right-4 bg-green-600 text-white px-4 py-2 rounded-lg shadow-lg z-50''"

definition failure_class :: string where
  "failure_class = ''fixed top-4 right-4 bg-red-600 text-white px-4 py-2 rounded-lg shadow-lg z-50''"

text \<open>
  \<^verbatim>\<open>
  const notification = document.createElement('div');
  notification.className = ...; notification.textContent = ...;
  document.body.appendChild(notification);
  setTimeout(() => { document.body.removeChild(notification); }, 3000);
  \<close>
\<close>

definition notify :: "string \<Rightarrow> string \<Rightarrow> pos \<Rightarrow> pos" where
  "notify cls txt s =
     s\<lparr>body := body s @ [(created s, \<lparr>className = cls, textContent = txt\<rparr>)],
       timers := timers s @ [(now s + 3000, created s)],
       created := Suc (created s)\<rparr>"

text \<open>
  \<^verbatim>\<open>
  const handleBarcodeScanned = (barcode: string) => {
    const product = products.find(p => p.barcode === barcode);
    if (product) {
      addItem(product);
      setShowBarcodeScanner(false);
      ... `Added ${product.name} to cart` ...
    } else {
      ... `Product not found for barcode: ${barcode}` ...
      setShowBarcodeScanner(false);
    }
  };
  \<close>
  The cart operation comes from the cart context, so it is a parameter here.
\<close>

definition handleBarcodeScanned :: "(product \<Rightarrow> cart \<Rightarrow> cart) \<Rightarrow> string \<Rightarrow> pos \<Rightarrow> pos" where
  "handleBarcodeScanned add code s =
     (case findByBarcode (products s) code of
        Some p \<Rightarrow>
          notify success_class (''Added '' @ name p @ '' to cart'')
            (s\<lparr>items := add p (items s), showBarcodeScanner := False\<rparr>)
      | None \<Rightarrow>
          (notify failure_class (''Product not found for barcode: '' @ code) s)
            \<lparr>showBarcodeScanner := False\<rparr>)"

text \<open>The notice that names a barcode no product has.\<close>

definition failure_notice :: "string \<Rightarrow> notification" where
  "failure_notice code =
     \<lparr>className = failure_class, textContent = ''Product not found for barcode: '' @ code\<rparr>"

text \<open>
  The passing of \<open>dt\<close> milliseconds: every timer due by then runs its callback, which
  removes its element from the body.
\<close>

definition advance :: "nat \<Rightarrow> pos \<Rightarrow> pos" where
  "advance dt s =
     (let t = now s + dt;
          due = map snd (filter (\<lambda>(d, n). d \<le> t) (timers s))
      in s\<lparr>now := t,
           timers := filter (\<lambda>(d, n). \<not> d \<le> t) (timers s),
           body := filter (\<lambda>(n, e). n \<notin> set due) (body s)\<rparr>)"

definition shown :: "pos \<Rightarrow> notification list" where
  "shown s = map snd (body s)"

text \<open>Element numbers are handed out in order: no element or timer is ahead of the counter.\<close>

definition page_ok :: "pos \<Rightarrow> bool" where
  "page_ok s = (list_all (\<lambda>(n, e). n < created s) (body s) \<and>
                list_all (\<lambda>(d, n). n < created s) (timers s))"

definition pos0 :: pos where
  "pos0 = \<lparr>products = [cola, chips], items = [], showBarcodeScanner = True, body = [],
           timers = [], created = 0, now = 0\<rparr>"

section \<open>Barcode scanner component (BarcodeScanner.tsx)\<close>

subsection \<open>State\<close>

text \<open>
  The component's state variables and refs, the \<open>isOpen\<close> prop, and the part of the
  outside world its code acts on. An instance of the decoding library's \<open>Html5Qrcode\<close>
  class is known by the number of its construction; \<open>running\<close> lists the instances
  whose capture session was started and not stopped, each with the camera it was
  started on, \<open>cleared\<close> the instances whose
  \<open>clear()\<close> was called, \<open>scanned\<close> the barcodes handed to the \<open>onScan\<close> prop.

  Every render of a function component creates its functions anew, each closing over
  the state values of that render. The effect's clean-up function that the framework
  keeps is the one returned when the effect last ran, so the \<open>isScanning\<close> that its
  \<open>cleanup\<close> reads is the value of the render in which the effect last ran:
  \<open>effect_isScanning\<close>. The dependency list of the effect is
  \<open>[isOpen, scannerMode, selectedCamera]\<close>; \<open>isScanning\<close> is not in it.
\<close>

datatype mode = Camera | Input

record device =
  device_id :: string
  device_label :: string

datatype 'a promise = Resolved 'a | Rejected

record scanner =
  isOpen :: bool
  scannerMode :: mode
  manualBarcode :: string
  isScanning :: bool
  error :: string
  cameras :: "device list"
  selectedCamera :: string
  html5QrCodeRef :: "nat option"
  scannerRef :: "nat option"
  effect_isScanning :: bool
  constructed :: nat
  running :: "(nat \<times> string) list"
  cleared :: "nat list"
  scanned :: "string list"

subsection \<open>cleanup\<close>

text \<open>
  \<^verbatim>\<open>
  const cleanup = async () => {
    try {
      if (html5QrCodeRef.current && isScanning) {
        await html5QrCodeRef.current.stop();
        html5QrCodeRef.current.clear();
      }
      if (scannerRef.current) {
        scannerRef.current.clear();
      }
    } catch (err) {
      console.warn('Cleanup error:', err);
    }
    setIsScanning(false);
    html5QrCodeRef.current = null;
    scannerRef.current = null;
  };
  \<close>
  The first argument is the \<open>isScanning\<close> of the render that created this \<open>cleanup\<close>.
  \<open>stop()\<close> ends the session of a running instance and rejects on an instance that is
  not running; the rejection leaves the \<open>try\<close> block. \<open>cleanup\<close> is the whole
  function, for the calls after which no code of the component runs before the awaited
  \<open>stop()\<close> settles: the calls by the framework, where the \<open>stop()\<close> is taken to settle
  before the outside world answers \<open>initializeScanner\<close>. \<open>handleClose\<close> goes on
  while \<open>stop()\<close> is pending; for it the function is cut at the \<open>await\<close>, below.
\<close>

definition clearScannerRef :: "scanner \<Rightarrow> scanner" where
  "clearScannerRef s =
     (case scannerRef s of
        Some r \<Rightarrow> s\<lparr>cleared := cleared s @ [r]\<rparr>
      | None \<Rightarrow> s)"

definition cleanup_try :: "bool \<Rightarrow> scanner \<Rightarrow> scanner" where
  "cleanup_try isScanning_seen s =
     (case html5QrCodeRef s of
        Some h \<Rightarrow>
          if isScanning_seen
          then (if h \<in> set (map fst (running s))
                then clearScannerRef
                       (s\<lparr>running := filter (\<lambda>(i, c). i \<noteq> h) (running s),
                          cleared := cleared s @ [h]\<rparr>)
                else s)
          else clearScannerRef s
      | None \<Rightarrow> clearScannerRef s)"

definition cleanup :: "bool \<Rightarrow> scanner \<Rightarrow> scanner" where
  "cleanup isScanning_seen s =
     (cleanup_try isScanning_seen s)
       \<lparr>isScanning := False, html5QrCodeRef := None, scannerRef := None\<rparr>"

text \<open>
  The same function cut at its \<open>await\<close>. \<open>stop_pending\<close>: the call reaches
  \<open>await html5QrCodeRef.current.stop()\<close> on a running instance and is suspended there.
  \<open>cleanup_until_await\<close>: the part that runs at once, which is the whole function when
  the call is not suspended; the session ends with the call of \<open>stop()\<close>.
  \<open>cleanup_after_await\<close>: the part that runs when \<open>stop()\<close> has resolved. It reads
  \<open>html5QrCodeRef.current\<close> again: when the ref is \<open>null\<close> by then,
  \<open>html5QrCodeRef.current.clear()\<close> throws and the \<open>catch\<close> block is entered.
\<close>

definition stop_pending :: "bool \<Rightarrow> scanner \<Rightarrow> bool" where
  "stop_pending isScanning_seen s =
     (case html5QrCodeRef s of
        Some h \<Rightarrow> isScanning_seen \<and> h \<in> set (map fst (running s))
      | None \<Rightarrow> False)"

definition cleanup_until_await :: "bool \<Rightarrow> scanner \<Rightarrow> scanner" where
  "cleanup_until_await isScanning_seen s =
     (case html5QrCodeRef s of
        Some h \<Rightarrow>
          if stop_pending isScanning_seen s
          then s\<lparr>running := filter (\<lambda>(i, c). i \<noteq> h) (running s)\<rparr>
          else cleanup isScanning_seen s
      | None \<Rightarrow> cleanup isScanning_seen s)"

definition cleanup_after_await :: "scanner \<Rightarrow> scanner" where
  "cleanup_after_await s =
     (case html5QrCodeRef s of
        Some h \<Rightarrow> clearScannerRef (s\<lparr>cleared := cleared s @ [h]\<rparr>)
      | None \<Rightarrow> s)
       \<lparr>isScanning := False, html5QrCodeRef := None, scannerRef := None\<rparr>"

subsection \<open>initializeScanner\<close>

text \<open>
  \<^verbatim>\<open>
  const initializeScanner = async () => {
    try {
      setError('');
      const devices = await Html5Qrcode.getCameras();
      setCameras(devices);
      if (devices.length === 0) {
        setError('No cameras found. Please use manual input.');
        setScannerMode('input');
        return;
      }
      const cameraId = selectedCamera || devices[0].id;
      const html5QrCode = new Html5Qrcode("barcode-scanner");
      html5QrCodeRef.current = html5QrCode;
      ...
      await html5QrCode.start(cameraId, config, onDecode, onDecodeError);
      setIsScanning(true);
    } catch (err: any) {
      console.error('Scanner initialization error:', err);
      setError('Failed to initialize camera. Please check permissions or use manual input.');
      setScannerMode('input');
    }
  };
  \<close>
  The two answers of the outside world are arguments: what \<open>getCameras()\<close> settles to,
  and whether \<open>start\<close> resolves. The constructor is taken to succeed.
\<close>

definition no_camera_message :: string where
  "no_camera_message = ''No cameras found. Please use manual input.''"

definition init_failed_message :: string where
  "init_failed_message =
     ''Failed to initialize camera. Please check permissions or use manual input.''"

definition init_failed :: "scanner \<Rightarrow> scanner" where
  "init_failed s = s\<lparr>error := init_failed_message, scannerMode := Input\<rparr>"

definition cameraId :: "string \<Rightarrow> device list \<Rightarrow> string" where
  "cameraId selected devices =
     (if selected \<noteq> [] then selected
      else (case devices of d # ds \<Rightarrow> device_id d | [] \<Rightarrow> []))"

definition initializeScanner :: "device list promise \<Rightarrow> bool \<Rightarrow> scanner \<Rightarrow> scanner" where
  "initializeScanner got started s =
     (let s1 = s\<lparr>error := []\<rparr> in
      case got of
        Rejected \<Rightarrow> init_failed s1
      | Resolved devices \<Rightarrow>
          (let s2 = s1\<lparr>cameras := devices\<rparr> in
           if length devices = 0
           then s2\<lparr>error := no_camera_message, scannerMode := Input\<rparr>
           else
             (let h = constructed s2;
                  s3 = s2\<lparr>constructed := Suc h, html5QrCodeRef := Some h\<rparr>
              in if started
                 then s3\<lparr>running := running s3 @ [(h, cameraId (selectedCamera s) devices)],
                         isScanning := True\<rparr>
                 else init_failed s3)))"

subsection \<open>The effect and its re-runs\<close>

text \<open>
  \<^verbatim>\<open>
  useEffect(() => {
    if (isOpen && scannerMode === 'camera') {
      initializeScanner();
    }
    return () => {
      cleanup();
    };
  }, [isOpen, scannerMode, selectedCamera]);
  \<close>
  When a render finds a dependency changed, the framework first calls the clean-up
  function it kept, then runs the effect of the new render and keeps its clean-up
  function. \<open>commit old new\<close> is what follows a change of state from \<open>old\<close> to \<open>new\<close>:
  nothing when the dependencies are the same; otherwise one re-run, and a second one
  when \<open>initializeScanner\<close> itself changed the mode.
\<close>

definition deps :: "scanner \<Rightarrow> bool \<times> mode \<times> string" where
  "deps s = (isOpen s, scannerMode s, selectedCamera s)"

definition effect :: "device list promise \<Rightarrow> bool \<Rightarrow> scanner \<Rightarrow> scanner" where
  "effect got started s =
     (if isOpen s \<and> scannerMode s = Camera then initializeScanner got started s else s)"

definition rerun :: "device list promise \<Rightarrow> bool \<Rightarrow> scanner \<Rightarrow> scanner" where
  "rerun got started s =
     effect got started
       ((cleanup (effect_isScanning s) s)\<lparr>effect_isScanning := isScanning s\<rparr>)"

definition commit :: "device list promise \<Rightarrow> bool \<Rightarrow> scanner \<Rightarrow> scanner \<Rightarrow> scanner" where
  "commit got started old new =
     (if deps new = deps old then new
      else (let s1 = rerun got started new
            in if deps s1 = deps new then s1 else rerun got started s1))"

subsection \<open>Event handlers\<close>

text \<open>
  \<open>String.prototype.trim\<close> removes white space and line terminators from both ends.
  Among the code units this model has these are tab, line feed, vertical tab, form
  feed, carriage return (U+0009 to U+000D), space (U+0020) and the no-break space
  (U+00A0).
\<close>

definition isWhiteSpace :: "char \<Rightarrow> bool" where
  "isWhiteSpace c =
     ((of_char c :: nat) = 32 \<or> (of_char c :: nat) = 160
      \<or> (9 \<le> (of_char c :: nat) \<and> (of_char c :: nat) \<le> 13))"

definition trim :: "string \<Rightarrow> string" where
  "trim s = rev (dropWhile isWhiteSpace (rev (dropWhile isWhiteSpace s)))"

text \<open>
  \<^verbatim>\<open>
  const handleScanSuccess = (barcode: string) => { onScan(barcode); onClose(); };
  const handleManualSubmit = (e) => {
    e.preventDefault();
    if (manualBarcode.trim()) { handleScanSuccess(manualBarcode.trim()); setManualBarcode(''); }
  };
  const handleClose = () => { cleanup(); setManualBarcode(''); setError(''); onClose(); };
  \<close>
  The hosting screen passes \<open>onClose = () => setShowBarcodeScanner(false)\<close>, which
  makes \<open>isOpen\<close> false. \<open>handleClose\<close> does not wait for \<open>cleanup()\<close>: the call
  runs until its \<open>await\<close>, then \<open>handleClose\<close> goes on, and the render that follows
  still sees the \<open>isScanning\<close> that a suspended \<open>cleanup\<close> has not yet reset.
\<close>

definition handleScanSuccess :: "string \<Rightarrow> scanner \<Rightarrow> scanner" where
  "handleScanSuccess code s = s\<lparr>scanned := scanned s @ [code], isOpen := False\<rparr>"

definition handleManualSubmit :: "scanner \<Rightarrow> scanner" where
  "handleManualSubmit s =
     (if trim (manualBarcode s) \<noteq> []
      then (handleScanSuccess (trim (manualBarcode s)) s)\<lparr>manualBarcode := []\<rparr>
      else s)"

definition handleClose :: "scanner \<Rightarrow> scanner" where
  "handleClose s =
     (cleanup_until_await (isScanning s) s)\<lparr>manualBarcode := [], error := [], isOpen := False\<rparr>"

text \<open>The error box of the dialog: rendered when the dialog is open and \<open>error\<close> is not empty.\<close>

definition shown_error :: "scanner \<Rightarrow> string option" where
  "shown_error s = (if isOpen s \<and> error s \<noteq> [] then Some (error s) else None)"

subsection \<open>Events\<close>

text \<open>
  What can happen to a mounted scanner. \<open>Open\<close>: the hosting screen sets \<open>isOpen\<close>.
  \<open>Decode\<close>: a running session reports a decoded text. \<open>TypeManual\<close>, \<open>ManualSubmit\<close>:
  the manual form, rendered in input mode. \<open>Close\<close>: the close button. \<open>SetMode\<close>: the
  mode toggle. \<open>SelectCamera\<close>: the camera selector, rendered in camera mode when there
  is more than one camera. \<open>Unmount\<close>: the framework calls the kept clean-up function.
  An event that can lead to \<open>initializeScanner\<close> carries the answers of the outside
  world. After \<open>Close\<close> the render and the clean-up of the effect come first; a
  \<open>cleanup\<close> that \<open>handleClose\<close> left suspended goes on after them.
\<close>

datatype event =
    Open "device list promise" bool
  | Decode string
  | TypeManual string
  | ManualSubmit
  | Close
  | SetMode mode "device list promise" bool
  | SelectCamera string "device list promise" bool
  | Unmount

fun step :: "scanner \<Rightarrow> event \<Rightarrow> scanner" where
  "step s (Open got started) = commit got started s (s\<lparr>isOpen := True\<rparr>)"
| "step s (Decode text) =
     (if running s = [] then s else commit Rejected False s (handleScanSuccess text s))"
| "step s (TypeManual text) =
     (if isOpen s \<and> scannerMode s = Input then s\<lparr>manualBarcode := text\<rparr> else s)"
| "step s ManualSubmit =
     (if isOpen s \<and> scannerMode s = Input
      then commit Rejected False s (handleManualSubmit s) else s)"
| "step s Close =
     (if isOpen s
      then (let s1 = commit Rejected False s (handleClose s)
            in if stop_pending (isScanning s) s then cleanup_after_await s1 else s1)
      else s)"
| "step s (SetMode m got started) =
     (if isOpen s then commit got started s (s\<lparr>scannerMode := m\<rparr>) else s)"
| "step s (SelectCamera c got started) =
     (if isOpen s \<and> scannerMode s = Camera \<and> 1 < length (cameras s)
      then commit got started s (s\<lparr>selectedCamera := c\<rparr>) else s)"
| "step s Unmount = cleanup (effect_isScanning s) s"

definition run :: "scanner \<Rightarrow> event list \<Rightarrow> scanner" where
  "run s es = foldl step s es"

text \<open>The scanner as the hosting screen mounts it: closed, in camera mode.\<close>

definition mounted :: scanner where
  "mounted = \<lparr>isOpen = False, scannerMode = Camera, manualBarcode = [], isScanning = False,
     error = [], cameras = [], selectedCamera = [], html5QrCodeRef = None, scannerRef = None,
     effect_isScanning = False, constructed = 0, running = [], cleared = [], scanned = []\<rparr>"

definition back_camera :: device where
  "back_camera = \<lparr>device_id = ''cam0'', device_label = ''Back camera''\<rparr>"

definition front_camera :: device where
  "front_camera = \<lparr>device_id = ''cam1'', device_label = ''Front camera''\<rparr>"

section \<open>Properties of the catalog functions\<close>



















lemma findByBarcode_None: "findByBarcode ps code = None \<longleftrightarrow> (\<forall>p\<in>set ps. barcode p \<noteq> Some code)"
  by (auto simp: findByBarcode_def find_None_iff)

lemma findByBarcode_Some: "findByBarcode ps code = Some p \<Longrightarrow> p \<in> set ps \<and> barcode p = Some code"
  by (auto simp: findByBarcode_def find_Some_iff)

lemma findByBarcode_unique:
  assumes "p \<in> set ps" "barcode p = Some code" "\<forall>q\<in>set ps. barcode q = Some code \<longrightarrow> q = p"
  shows "findByBarcode ps code = Some p"
proof (cases "findByBarcode ps code")
  case None
  then have "\<forall>q\<in>set ps. barcode q \<noteq> Some code" by (simp add: findByBarcode_None)
  with assms(1,2) show ?thesis by blast
next
  case (Some q)
  from findByBarcode_Some [OF Some] have "q \<in> set ps" and "barcode q = Some code"
    by simp_all
  with assms(3) have "q = p" by blast
  with Some show ?thesis by simp
qed

text \<open>
  Claim C4. The lookup returns a product of the catalog whose barcode equals the code,
  character for character; it is that product when only one has the barcode. It misses
  exactly when no product has the barcode, so it misses on the empty catalog and when no
  product has a barcode at all.
\<close>

theorem findByBarcode_exact:
  "(findByBarcode ps code = None \<longleftrightarrow> (\<forall>p\<in>set ps. barcode p \<noteq> Some code))
   \<and> (\<forall>p. findByBarcode ps code = Some p \<longrightarrow> p \<in> set ps \<and> barcode p = Some code)
   \<and> (\<forall>p. p \<in> set ps \<and> barcode p = Some code
          \<and> (\<forall>q\<in>set ps. barcode q = Some code \<longrightarrow> q = p)
        \<longrightarrow> findByBarcode ps code = Some p)
   \<and> findByBarcode [] code = None
   \<and> ((\<forall>p\<in>set ps. barcode p = None) \<longrightarrow> findByBarcode ps code = None)"
proof (intro conjI allI impI)
  show "findByBarcode ps code = None \<longleftrightarrow> (\<forall>p\<in>set ps. barcode p \<noteq> Some code)"
    by (rule findByBarcode_None)
  show "findByBarcode [] code = None"
    by (simp add: findByBarcode_def)
next
  fix p assume "findByBarcode ps code = Some p"
  then show "p \<in> set ps" and "barcode p = Some code"
    using findByBarcode_Some by blast+
next
  fix p
  assume "p \<in> set ps \<and> barcode p = Some code \<and> (\<forall>q\<in>set ps. barcode q = Some code \<longrightarrow> q = p)"
  then show "findByBarcode ps code = Some p"
    using findByBarcode_unique by blast
next
  assume "\<forall>p\<in>set ps. barcode p = None"
  then have "\<forall>p\<in>set ps. barcode p \<noteq> Some code" by simp
  then show "findByBarcode ps code = None" by (simp add: findByBarcode_None)
qed

theorem findByBarcode_exact_witness:
  "findByBarcode [chips, misc] ''ABC'' = None
   \<and> findByBarcode [chips, misc] ''aBc '' = None
   \<and> findByBarcode [chips, misc] ''aBc'' = Some misc
   \<and> findByBarcode [chips] ''111'' = None"
  using findByBarcode_exact [of "[chips, misc]" "''ABC''"]
    findByBarcode_exact [of "[chips, misc]" "''aBc ''"]
    findByBarcode_exact [of "[chips, misc]" "''aBc''"]
    findByBarcode_exact [of "[chips]" "''111''"]
  by (simp add: chips_def misc_def)

text \<open>
  Claim C10. When several products carry the same barcode, the lookup returns the first
  of them in catalog order: the product before which no product has the barcode.
\<close>

theorem findByBarcode_first_match:
  assumes "barcode p = Some code" and "\<forall>q\<in>set pre. barcode q \<noteq> Some code"
  shows "findByBarcode (pre @ p # suf) code = Some p"
  using assms unfolding findByBarcode_def by (induction pre) auto

theorem findByBarcode_first_match_witness:
  "findByBarcode [chips, cola, cocoa] ''111'' = Some cola \<and> cola \<noteq> cocoa
   \<and> barcode cocoa = Some ''111''"
  using findByBarcode_first_match [of cola "''111''" "[chips]" "[cocoa]"]
  by (simp add: chips_def cola_def cocoa_def)

lemma filter_removeAll_irrelevant: "\<not> P x \<Longrightarrow> filter P (removeAll x zs) = filter P zs"
  by (induction zs) auto

lemma first_seen_filter: "first_seen (filter P ys) = filter P (first_seen ys)"
proof (induction ys)
  case Nil
  show ?case by simp
next
  case (Cons y ys)
  show ?case
  proof (cases "P y")
    case True
    have "removeAll y (filter P zs) = filter P (removeAll y zs)" for zs :: "'a list"
      by (induction zs) auto
    with True Cons show ?thesis by simp
  next
    case False
    with Cons show ?thesis by (simp add: filter_removeAll_irrelevant)
  qed
qed

lemma set_first_seen: "set (first_seen xs) = set xs"
  by (induction xs) auto

lemma distinct_first_seen: "distinct (first_seen xs)"
  by (induction xs) (auto simp: distinct_removeAll)

lemma foldl_Set_add:
  "foldl Set_add acc xs = acc @ first_seen (filter (\<lambda>x. x \<notin> set acc) xs)"
proof (induction xs arbitrary: acc)
  case Nil
  show ?case by simp
next
  case (Cons x xs)
  show ?case
  proof (cases "x \<in> set acc")
    case True
    then show ?thesis using Cons [of acc] by (simp add: Set_add_def)
  next
    case False
    have "filter (\<lambda>y. y \<notin> set (acc @ [x])) xs = removeAll x (filter (\<lambda>y. y \<notin> set acc) xs)"
      by (induction xs) auto
    moreover have "first_seen (removeAll x zs) = removeAll x (first_seen zs)" for zs :: "'a list"
      using first_seen_filter [of "\<lambda>y. y \<noteq> x" zs] by (simp add: removeAll_filter_not_eq eq_commute)
    ultimately show ?thesis using False Cons [of "acc @ [x]"] by (simp add: Set_add_def)
  qed
qed

lemma Set_from_first_seen: "Set_from xs = first_seen xs"
  by (simp add: Set_from_def foldl_Set_add)

lemma first_seen_split:
  assumes "x \<notin> set a"
  shows "\<exists>rest. first_seen (a @ x # b) = first_seen a @ x # rest"
proof -
  have "first_seen (a @ x # b) = foldl Set_add (foldl Set_add [] a) (x # b)"
    by (simp add: Set_from_first_seen [symmetric] Set_from_def)
  also have "\<dots> = foldl Set_add (first_seen a @ [x]) b"
    using assms by (simp add: foldl_Set_add Set_add_def set_first_seen)
  also have "\<dots> = (first_seen a @ [x]) @ first_seen (filter (\<lambda>y. y \<notin> set (first_seen a @ [x])) b)"
    by (rule foldl_Set_add)
  finally show ?thesis by simp
qed

text \<open>
  Claim C6, as stated: the returned labels are pairwise distinct. They are not when a
  product's category is the word \<open>all\<close> itself: the sentinel is put in front without
  looking at the labels.
\<close>

theorem categories_distinct_counterexample:
  "categories [misc] = [''all'', ''all''] \<and> \<not> distinct (categories [misc])"
  by (simp add: categories_def Set_from_def Set_add_def misc_def)

text \<open>
  Claim C6, amended. The result is the sentinel \<open>all\<close> followed by the category
  labels present, each once, in first-seen order: the labels listed before a label are
  those of the products before its first product. The labels after the sentinel are
  pairwise distinct, and so is the whole list when no product has the category \<open>all\<close>.
\<close>

theorem categories_first_seen:
  "categories ps = ''all'' # first_seen (map category ps)
   \<and> distinct (tl (categories ps))
   \<and> set (tl (categories ps)) = category ` set ps
   \<and> (''all'' \<notin> category ` set ps \<longrightarrow> distinct (categories ps))
   \<and> (\<forall>pre p suf. ps = pre @ p # suf \<longrightarrow> category p \<notin> category ` set pre \<longrightarrow>
        (\<exists>before after. categories ps = ''all'' # before @ category p # after
            \<and> set before = category ` set pre))"
proof -
  have eq: "categories ps = ''all'' # first_seen (map category ps)"
    by (simp add: categories_def Set_from_first_seen)
  have ord: "\<exists>before after. categories ps = ''all'' # before @ category p # after
            \<and> set before = category ` set pre"
    if "ps = pre @ p # suf" "category p \<notin> category ` set pre" for pre p suf
  proof -
    from that(2) have "category p \<notin> set (map category pre)" by simp
    from first_seen_split [OF this, of "map category suf"] that(1)
    obtain rest where "first_seen (map category ps) = first_seen (map category pre) @ category p # rest"
      by auto
    with eq have "categories ps = ''all'' # first_seen (map category pre) @ category p # rest"
      by simp
    moreover have "set (first_seen (map category pre)) = category ` set pre"
      by (simp add: set_first_seen)
    ultimately show ?thesis by blast
  qed
  have d: "distinct (tl (categories ps))"
    by (simp add: eq distinct_first_seen)
  have st: "set (tl (categories ps)) = category ` set ps"
    by (simp add: eq set_first_seen)
  have da: "distinct (categories ps)" if "''all'' \<notin> category ` set ps"
    using that by (simp add: eq distinct_first_seen set_first_seen)
  show ?thesis
  proof (intro conjI allI impI)
    show "categories ps = ''all'' # first_seen (map category ps)" by (rule eq)
    show "distinct (tl (categories ps))" by (rule d)
    show "set (tl (categories ps)) = category ` set ps" by (rule st)
  next
    assume "''all'' \<notin> category ` set ps"
    then show "distinct (categories ps)" by (rule da)
  next
    fix pre p suf
    assume "ps = pre @ p # suf" "category p \<notin> category ` set pre"
    then show "\<exists>before after. categories ps = ''all'' # before @ category p # after
            \<and> set before = category ` set pre"
      by (rule ord)
  qed
qed

theorem categories_first_seen_witness:
  "categories [cola, chips, cocoa] = [''all'', ''drinks'', ''snacks'']
   \<and> distinct (categories [cola, chips, cocoa])"
  using categories_first_seen [of "[cola, chips, cocoa]"]
  by (simp add: cola_def chips_def cocoa_def)

section \<open>Properties of the cart\<close>

lemma map_other_lines:
  "\<not> hasLine ls pid \<Longrightarrow> map (\<lambda>l. if lineFor pid l then f l else l) ls = ls"
  by (induction ls) (auto simp: hasLine_def)

lemma linesFor_map:
  "linesFor pid (map (\<lambda>l. if lineFor pid l then l\<lparr>quantity := g l\<rparr> else l) ls)
     = map (\<lambda>l. l\<lparr>quantity := g l\<rparr>) (linesFor pid ls)"
  by (induction ls) (auto simp: linesFor_def lineFor_def)

lemma otherLines_map:
  "otherLines pid (map (\<lambda>l. if lineFor pid l then l\<lparr>quantity := g l\<rparr> else l) ls)
     = otherLines pid ls"
  by (induction ls) (auto simp: otherLines_def lineFor_def)

lemma product_map:
  "map product (map (\<lambda>l. if lineFor pid l then l\<lparr>quantity := g l\<rparr> else l) ls)
     = map product ls"
  by (induction ls) auto

lemma addItem_existing:
  assumes "hasLine ls (product_id p)"
  shows "linesFor (product_id p) (addItem p ls)
           = map (\<lambda>l. l\<lparr>quantity := quantity l + 1\<rparr>) (linesFor (product_id p) ls)"
    and "otherLines (product_id p) (addItem p ls) = otherLines (product_id p) ls"
    and "map product (addItem p ls) = map product ls"
  using assms by (simp_all add: addItem_def linesFor_map otherLines_map product_map)

lemma addItem_new:
  "\<not> hasLine ls (product_id p) \<Longrightarrow> addItem p ls = ls @ [\<lparr>product = p, quantity = 1\<rparr>]"
  by (simp add: addItem_def)

lemma addItem_again:
  assumes "\<not> hasLine ls (product_id p)"
  shows "addItem p (ls @ [\<lparr>product = p, quantity = k\<rparr>])
           = ls @ [\<lparr>product = p, quantity = k + 1\<rparr>]"
proof -
  have "hasLine (ls @ [\<lparr>product = p, quantity = k\<rparr>]) (product_id p)"
    by (simp add: hasLine_def lineFor_def)
  then show ?thesis
    using map_other_lines [OF assms] by (simp add: addItem_def lineFor_def)
qed

lemma addItem_repeat:
  assumes "\<not> hasLine ls (product_id p)"
  shows "(addItem p ^^ Suc n) ls = ls @ [\<lparr>product = p, quantity = int (Suc n)\<rparr>]"
proof (induction n)
  case 0
  show ?case using assms by (simp add: addItem_new)
next
  case (Suc n)
  have "(addItem p ^^ Suc (Suc n)) ls = addItem p ((addItem p ^^ Suc n) ls)"
    by simp
  also have "\<dots> = addItem p (ls @ [\<lparr>product = p, quantity = int (Suc n)\<rparr>])"
    by (simp only: Suc)
  also have "\<dots> = ls @ [\<lparr>product = p, quantity = int (Suc n) + 1\<rparr>]"
    by (rule addItem_again [OF assms])
  finally show ?case by simp
qed

lemma linesFor_none: "\<not> hasLine ls pid \<Longrightarrow> linesFor pid ls = []"
  by (induction ls) (auto simp: hasLine_def linesFor_def)

text \<open>
  Claim C1. Adding a product whose line exists increments the quantity of that line by
  1 and changes nothing else; adding a product without a line appends a line with
  quantity 1. Hence \<open>n\<close> additions of one product, \<open>n\<close> at least 1, to a cart without a
  line for it leave the cart with exactly one line for the product, of quantity \<open>n\<close>.
\<close>

theorem addItem_counts:
  "(hasLine ls (product_id p) \<longrightarrow>
      linesFor (product_id p) (addItem p ls)
        = map (\<lambda>l. l\<lparr>quantity := quantity l + 1\<rparr>) (linesFor (product_id p) ls)
      \<and> otherLines (product_id p) (addItem p ls) = otherLines (product_id p) ls
      \<and> map product (addItem p ls) = map product ls)
   \<and> (\<not> hasLine ls (product_id p) \<longrightarrow>
        addItem p ls = ls @ [\<lparr>product = p, quantity = 1\<rparr>])
   \<and> (\<not> hasLine ls (product_id p) \<longrightarrow> 0 < n \<longrightarrow>
        (addItem p ^^ n) ls = ls @ [\<lparr>product = p, quantity = int n\<rparr>]
        \<and> linesFor (product_id p) ((addItem p ^^ n) ls) = [\<lparr>product = p, quantity = int n\<rparr>])"
proof (intro conjI impI)
  assume h: "hasLine ls (product_id p)"
  show "linesFor (product_id p) (addItem p ls)
        = map (\<lambda>l. l\<lparr>quantity := quantity l + 1\<rparr>) (linesFor (product_id p) ls)"
    by (rule addItem_existing(1) [OF h])
  show "otherLines (product_id p) (addItem p ls) = otherLines (product_id p) ls"
    by (rule addItem_existing(2) [OF h])
  show "map product (addItem p ls) = map product ls"
    by (rule addItem_existing(3) [OF h])
next
  assume "\<not> hasLine ls (product_id p)"
  then show "addItem p ls = ls @ [\<lparr>product = p, quantity = 1\<rparr>]"
    by (rule addItem_new)
next
  assume h: "\<not> hasLine ls (product_id p)" and n: "0 < n"
  then obtain m where m: "n = Suc m" by (cases n) auto
  show eq: "(addItem p ^^ n) ls = ls @ [\<lparr>product = p, quantity = int n\<rparr>]"
    unfolding m by (rule addItem_repeat [OF h])
  show "linesFor (product_id p) ((addItem p ^^ n) ls) = [\<lparr>product = p, quantity = int n\<rparr>]"
    unfolding eq using linesFor_none [OF h] by (simp add: linesFor_def lineFor_def)
qed

theorem addItem_counts_witness:
  "(addItem cola ^^ 2) [] = [\<lparr>product = cola, quantity = 2\<rparr>]
   \<and> linesFor ''1'' ((addItem cola ^^ 3) [\<lparr>product = chips, quantity = 4\<rparr>])
        = [\<lparr>product = cola, quantity = 3\<rparr>]"
  using addItem_counts [of "[]" cola 2] addItem_counts [of "[\<lparr>product = chips, quantity = 4\<rparr>]" cola 3]
  by (simp add: hasLine_def lineFor_def linesFor_def cola_def chips_def)

lemma hasLine_filter: "\<not> hasLine (filter (\<lambda>l. \<not> lineFor pid l) ls) pid"
  by (induction ls) (auto simp: hasLine_def)

lemma otherLines_idem: "otherLines pid (otherLines pid ls) = otherLines pid ls"
  by (simp add: otherLines_def)

lemma otherLines_none: "\<not> hasLine ls pid \<Longrightarrow> otherLines pid ls = ls"
  by (induction ls) (auto simp: hasLine_def otherLines_def)

lemma quantity_map:
  assumes "l \<in> set (map (\<lambda>l. if lineFor pid l then l\<lparr>quantity := q\<rparr> else l) ls)"
    and "lineFor pid l"
  shows "quantity l = q"
proof -
  from assms(1) have "\<exists>k. l = (if lineFor pid k then k\<lparr>quantity := q\<rparr> else k)"
    unfolding set_map by (rule imageE) (rule exI)
  then obtain k where k: "l = (if lineFor pid k then k\<lparr>quantity := q\<rparr> else k)" ..
  show ?thesis
  proof (cases "lineFor pid k")
    case True
    with k show ?thesis by simp
  next
    case False
    with k assms(2) show ?thesis by simp
  qed
qed

text \<open>
  Claim C5. A new quantity of 0 or less removes the line of the product and leaves the
  other lines; a positive one sets the quantity of that line to exactly the new quantity
  and leaves the other lines and the order; a product id without a line leaves the cart
  as it is.
\<close>

theorem updateQuantity_cases:
  "(q \<le> 0 \<longrightarrow>
      updateQuantity pid q ls = otherLines pid ls
      \<and> \<not> hasLine (updateQuantity pid q ls) pid)
   \<and> (0 < q \<longrightarrow>
        linesFor pid (updateQuantity pid q ls)
          = map (\<lambda>l. l\<lparr>quantity := q\<rparr>) (linesFor pid ls)
        \<and> otherLines pid (updateQuantity pid q ls) = otherLines pid ls
        \<and> map product (updateQuantity pid q ls) = map product ls
        \<and> (\<forall>l\<in>set (updateQuantity pid q ls). lineFor pid l \<longrightarrow> quantity l = q))
   \<and> (\<not> hasLine ls pid \<longrightarrow> updateQuantity pid q ls = ls)"
proof (intro conjI impI)
  assume "q \<le> 0"
  then show "updateQuantity pid q ls = otherLines pid ls"
    by (simp add: updateQuantity_def otherLines_def)
  then show "\<not> hasLine (updateQuantity pid q ls) pid"
    by (simp add: otherLines_def hasLine_filter)
next
  assume q: "0 < q"
  then have eq: "updateQuantity pid q ls
      = map (\<lambda>l. if lineFor pid l then l\<lparr>quantity := q\<rparr> else l) ls"
    by (simp add: updateQuantity_def)
  show "linesFor pid (updateQuantity pid q ls) = map (\<lambda>l. l\<lparr>quantity := q\<rparr>) (linesFor pid ls)"
    unfolding eq by (rule linesFor_map)
  show "otherLines pid (updateQuantity pid q ls) = otherLines pid ls"
    unfolding eq by (rule otherLines_map)
  show "map product (updateQuantity pid q ls) = map product ls"
    unfolding eq by (rule product_map)
  show "\<forall>l\<in>set (updateQuantity pid q ls). lineFor pid l \<longrightarrow> quantity l = q"
    unfolding eq using quantity_map by blast
next
  assume h: "\<not> hasLine ls pid"
  show "updateQuantity pid q ls = ls"
  proof (cases "q \<le> 0")
    case True
    then have "updateQuantity pid q ls = otherLines pid ls"
      by (simp add: updateQuantity_def otherLines_def)
    also have "\<dots> = ls" by (rule otherLines_none [OF h])
    finally show ?thesis .
  next
    case False
    then have "updateQuantity pid q ls
        = map (\<lambda>l. if lineFor pid l then l\<lparr>quantity := q\<rparr> else l) ls"
      by (simp add: updateQuantity_def)
    also have "\<dots> = ls" by (rule map_other_lines [OF h])
    finally show ?thesis .
  qed
qed

theorem updateQuantity_cases_witness:
  "updateQuantity ''1'' 0 [\<lparr>product = cola, quantity = 2\<rparr>, \<lparr>product = chips, quantity = 4\<rparr>]
     = [\<lparr>product = chips, quantity = 4\<rparr>]
   \<and> linesFor ''1'' (updateQuantity ''1'' 7 [\<lparr>product = cola, quantity = 2\<rparr>, \<lparr>product = chips, quantity = 4\<rparr>])
     = [\<lparr>product = cola, quantity = 7\<rparr>]
   \<and> updateQuantity ''9'' 7 [\<lparr>product = cola, quantity = 2\<rparr>] = [\<lparr>product = cola, quantity = 2\<rparr>]"
  using updateQuantity_cases [of 0 "''1''" "[\<lparr>product = cola, quantity = 2\<rparr>, \<lparr>product = chips, quantity = 4\<rparr>]"]
    updateQuantity_cases [of 7 "''1''" "[\<lparr>product = cola, quantity = 2\<rparr>, \<lparr>product = chips, quantity = 4\<rparr>]"]
    updateQuantity_cases [of 7 "''9''" "[\<lparr>product = cola, quantity = 2\<rparr>]"]
  by (simp add: hasLine_def lineFor_def linesFor_def otherLines_def cola_def chips_def)

section \<open>Properties of the scan handling\<close>

lemma handleBarcodeScanned_miss_eq:
  assumes "findByBarcode (products s) code = None"
  shows "handleBarcodeScanned add code s =
           s\<lparr>body := body s @ [(created s, failure_notice code)],
             timers := timers s @ [(now s + 3000, created s)],
             created := Suc (created s),
             showBarcodeScanner := False\<rparr>"
  using assms by (simp add: handleBarcodeScanned_def notify_def failure_notice_def)

lemma removed_absent: "n \<in> D \<Longrightarrow> n \<notin> fst ` set (filter (\<lambda>(m, e). m \<notin> D) xs)"
  by auto

lemma advance_dismisses:
  assumes "(d, n) \<in> set (timers s)" and "d \<le> now s + dt"
  shows "n \<notin> fst ` set (body (advance dt s))"
proof -
  from assms have "n \<in> set (map snd (filter (\<lambda>(d, n). d \<le> now s + dt) (timers s)))"
    by force
  then have "n \<notin> fst ` set (filter (\<lambda>(m, e). m \<notin>
        set (map snd (filter (\<lambda>(d, n). d \<le> now s + dt) (timers s)))) (body s))"
    by (rule removed_absent)
  then show ?thesis by (simp add: advance_def Let_def)
qed

lemma advance_keeps:
  assumes "(n, e) \<in> set (body s)"
    and "\<forall>(d, m)\<in>set (timers s). m = n \<longrightarrow> now s + dt < d"
  shows "(n, e) \<in> set (body (advance dt s))"
proof -
  have "n \<notin> set (map snd (filter (\<lambda>(d, n). d \<le> now s + dt) (timers s)))"
    using assms(2) by fastforce
  with assms(1) show ?thesis by (simp add: advance_def Let_def)
qed

text \<open>
  Claim C8. When the scanned barcode is the barcode of no product of the catalog, the
  handling leaves the cart as it is and appends a failure notice that names the barcode;
  the notice is removed by a timer due 3000 milliseconds later: it is gone from then on,
  and on a page whose element numbers are in order it is still shown before.
\<close>

theorem scan_miss:
  assumes "\<forall>p\<in>set (products s). barcode p \<noteq> Some code"
  shows "items (handleBarcodeScanned add code s) = items s
     \<and> shown (handleBarcodeScanned add code s) = shown s @ [failure_notice code]
     \<and> body (handleBarcodeScanned add code s) = body s @ [(created s, failure_notice code)]
     \<and> timers (handleBarcodeScanned add code s) = timers s @ [(now s + 3000, created s)]
     \<and> (\<forall>dt\<ge>3000. created s \<notin> fst ` set (body (advance dt (handleBarcodeScanned add code s))))
     \<and> (page_ok s \<longrightarrow> (\<forall>dt<3000. (created s, failure_notice code)
            \<in> set (body (advance dt (handleBarcodeScanned add code s)))))"
proof -
  from assms have miss: "findByBarcode (products s) code = None"
    by (simp add: findByBarcode_None)
  let ?s = "handleBarcodeScanned add code s"
  note eq = handleBarcodeScanned_miss_eq [OF miss, of add]
  have 1: "items ?s = items s" by (simp add: eq)
  have 3: "body ?s = body s @ [(created s, failure_notice code)]" by (simp add: eq)
  have 2: "shown ?s = shown s @ [failure_notice code]" by (simp add: shown_def 3)
  have 4: "timers ?s = timers s @ [(now s + 3000, created s)]" by (simp add: eq)
  have n: "now ?s = now s" by (simp add: eq)
  have 5: "created s \<notin> fst ` set (body (advance dt ?s))" if "3000 \<le> dt" for dt
  proof (rule advance_dismisses)
    show "(now s + 3000, created s) \<in> set (timers ?s)" by (simp add: 4)
    show "now s + 3000 \<le> now ?s + dt" using that by (simp add: n)
  qed
  have 6: "(created s, failure_notice code) \<in> set (body (advance dt ?s))"
    if ok: "page_ok s" and dt: "dt < 3000" for dt
  proof (rule advance_keeps)
    show "(created s, failure_notice code) \<in> set (body ?s)" by (simp add: 3)
    have old: "m < created s" if "(d, m) \<in> set (timers s)" for d m
      using ok that by (auto simp: page_ok_def list_all_iff)
    show "\<forall>(d, m)\<in>set (timers ?s). m = created s \<longrightarrow> now ?s + dt < d"
      using old dt by (auto simp: 4 n)
  qed
  from 1 2 3 4 5 6 show ?thesis by blast
qed

theorem scan_miss_witness:
  "items (handleBarcodeScanned addItem ''222'' pos0) = []
   \<and> shown (handleBarcodeScanned addItem ''222'' pos0) = [failure_notice ''222'']
   \<and> textContent (failure_notice ''222'') = ''Product not found for barcode: 222''
   \<and> (0, failure_notice ''222'') \<in> set (body (advance 2999 (handleBarcodeScanned addItem ''222'' pos0)))
   \<and> 0 \<notin> fst ` set (body (advance 3000 (handleBarcodeScanned addItem ''222'' pos0)))"
proof -
  have h: "\<forall>p\<in>set (products pos0). barcode p \<noteq> Some ''222''"
    by (simp add: pos0_def cola_def chips_def)
  have ok: "page_ok pos0" by (simp add: page_ok_def pos0_def)
  have c: "created pos0 = 0" and i: "items pos0 = []" and b: "shown pos0 = []"
    by (simp_all add: pos0_def shown_def)
  note th = scan_miss [OF h, of addItem]
  from th have "items (handleBarcodeScanned addItem ''222'' pos0) = items pos0"
    and "shown (handleBarcodeScanned addItem ''222'' pos0) = shown pos0 @ [failure_notice ''222'']"
    and "(3000::nat) \<le> 3000 \<longrightarrow> created pos0
           \<notin> fst ` set (body (advance 3000 (handleBarcodeScanned addItem ''222'' pos0)))"
    and "page_ok pos0 \<longrightarrow> (2999::nat) < 3000 \<longrightarrow> (created pos0, failure_notice ''222'')
           \<in> set (body (advance 2999 (handleBarcodeScanned addItem ''222'' pos0)))"
    by blast+
  with ok show ?thesis by (simp add: c i b failure_notice_def)
qed

section \<open>Properties of the scanner\<close>

lemma clearScannerRef_fields:
  "isOpen (clearScannerRef s) = isOpen s"
  "scannerMode (clearScannerRef s) = scannerMode s"
  "selectedCamera (clearScannerRef s) = selectedCamera s"
  "error (clearScannerRef s) = error s"
  "constructed (clearScannerRef s) = constructed s"
  "scanned (clearScannerRef s) = scanned s"
  "manualBarcode (clearScannerRef s) = manualBarcode s"
  "running (clearScannerRef s) = running s"
  by (simp_all add: clearScannerRef_def split: option.splits)

lemma cleanup_try_fields:
  "isOpen (cleanup_try b s) = isOpen s"
  "scannerMode (cleanup_try b s) = scannerMode s"
  "selectedCamera (cleanup_try b s) = selectedCamera s"
  "error (cleanup_try b s) = error s"
  "constructed (cleanup_try b s) = constructed s"
  "scanned (cleanup_try b s) = scanned s"
  "manualBarcode (cleanup_try b s) = manualBarcode s"
  by (simp_all add: cleanup_try_def clearScannerRef_fields split: option.splits)

lemma cleanup_try_running: "set (running (cleanup_try b s)) \<subseteq> set (running s)"
  by (auto simp add: cleanup_try_def clearScannerRef_fields split: option.splits)

lemma cleanup_fields:
  "isOpen (cleanup b s) = isOpen s"
  "scannerMode (cleanup b s) = scannerMode s"
  "selectedCamera (cleanup b s) = selectedCamera s"
  "error (cleanup b s) = error s"
  "constructed (cleanup b s) = constructed s"
  "scanned (cleanup b s) = scanned s"
  "manualBarcode (cleanup b s) = manualBarcode s"
  "isScanning (cleanup b s) = False"
  "html5QrCodeRef (cleanup b s) = None"
  "scannerRef (cleanup b s) = None"
  by (simp_all add: cleanup_def cleanup_try_fields)

lemma cleanup_running: "set (running (cleanup b s)) \<subseteq> set (running s)"
  using cleanup_try_running [of b s] by (simp add: cleanup_def)

text \<open>
  Releasing when nothing is held changes nothing, and a second release changes nothing
  after a first.
\<close>

lemma cleanup_no_session:
  assumes "html5QrCodeRef s = None" and "scannerRef s = None" and "\<not> isScanning s"
  shows "cleanup b s = s"
  using assms by (simp add: cleanup_def cleanup_try_def clearScannerRef_def)

lemma cleanup_idempotent: "cleanup b' (cleanup b s) = cleanup b s"
  by (rule cleanup_no_session) (simp_all add: cleanup_fields)

text \<open>
  The two parts of the cut function make up the whole function when nothing happens in
  between. After the close button the clean-up of the effect comes in between: the
  session is stopped, the ref is \<open>null\<close> when the second part runs, and \<open>clear()\<close> is
  not reached.
\<close>

lemma cleanup_cut:
  "cleanup b s = (if stop_pending b s then cleanup_after_await (cleanup_until_await b s)
                  else cleanup_until_await b s)"
  by (simp add: cleanup_def cleanup_try_def cleanup_until_await_def cleanup_after_await_def
      stop_pending_def clearScannerRef_def split: option.splits)

lemma close_stops_without_clear:
  "(let s = run mounted [Open (Resolved [back_camera]) True, Close]
    in \<not> isOpen s \<and> running s = [] \<and> cleared s = [] \<and> html5QrCodeRef s = None
       \<and> \<not> isScanning s)"
  by code_simp

lemma initializeScanner_no_devices:
  "initializeScanner (Resolved []) started s
     = s\<lparr>cameras := [], error := no_camera_message, scannerMode := Input\<rparr>"
  by (simp add: initializeScanner_def)

lemma rerun_no_devices:
  assumes "isOpen s" and "scannerMode s = Camera"
  shows "rerun (Resolved []) started s
     = (cleanup (effect_isScanning s) s)
         \<lparr>effect_isScanning := isScanning s, cameras := [], error := no_camera_message,
          scannerMode := Input\<rparr>"
  using assms by (simp add: rerun_def effect_def initializeScanner_no_devices cleanup_fields)

lemma rerun_input:
  assumes "scannerMode s = Input"
  shows "rerun got started s = (cleanup (effect_isScanning s) s)\<lparr>effect_isScanning := isScanning s\<rparr>"
  using assms by (simp add: rerun_def effect_def cleanup_fields)

lemma rerun_closed:
  assumes "\<not> isOpen s"
  shows "rerun got started s = (cleanup (effect_isScanning s) s)\<lparr>effect_isScanning := isScanning s\<rparr>"
  using assms by (simp add: rerun_def effect_def cleanup_fields)

lemma commit_no_devices:
  assumes "deps new \<noteq> deps old" and "isOpen new" and "scannerMode new = Camera"
  shows "commit (Resolved []) started old new
     = (cleanup False (cleanup (effect_isScanning new) new))
         \<lparr>effect_isScanning := False, cameras := [], error := no_camera_message,
          scannerMode := Input\<rparr>"
proof -
  let ?s1 = "rerun (Resolved []) started new"
  have s1: "?s1 = (cleanup (effect_isScanning new) new)
         \<lparr>effect_isScanning := isScanning new, cameras := [], error := no_camera_message,
          scannerMode := Input\<rparr>"
    by (rule rerun_no_devices [OF assms(2,3)])
  have m: "scannerMode ?s1 = Input" by (simp add: s1)
  have d: "deps ?s1 \<noteq> deps new" using assms(3) m by (simp add: deps_def)
  have "commit (Resolved []) started old new = rerun (Resolved []) started ?s1"
    using assms(1) d by (simp add: commit_def Let_def)
  also have "\<dots> = (cleanup (effect_isScanning ?s1) ?s1)\<lparr>effect_isScanning := isScanning ?s1\<rparr>"
    by (rule rerun_input [OF m])
  finally show ?thesis
    apply (simp add: s1 cleanup_fields)
    apply (simp add: cleanup_def cleanup_try_def clearScannerRef_def cleanup_fields split: option.splits)
    done
qed

lemma commit_no_devices_eq:
  assumes "deps new \<noteq> deps old" and "isOpen new" and "scannerMode new = Camera"
  shows "commit (Resolved []) started old new
     = (cleanup (effect_isScanning new) new)
         \<lparr>effect_isScanning := False, cameras := [], error := no_camera_message,
          scannerMode := Input\<rparr>"
  by (simp add: commit_no_devices [OF assms] cleanup_idempotent)

lemma initializeScanner_scanned: "scanned (initializeScanner got started s) = scanned s"
  by (simp add: initializeScanner_def init_failed_def Let_def split: promise.splits)

lemma rerun_scanned: "scanned (rerun got started s) = scanned s"
  by (simp add: rerun_def effect_def initializeScanner_scanned cleanup_fields)

lemma commit_scanned: "scanned (commit got started old new) = scanned new"
  by (simp add: commit_def Let_def rerun_scanned)

lemma manual_submit_delivers:
  assumes "isOpen s" and "scannerMode s = Input" and "trim text \<noteq> []"
  shows "scanned (run s [TypeManual text, ManualSubmit]) = scanned s @ [trim text]"
  using assms
  by (simp add: run_def commit_scanned handleManualSubmit_def handleScanSuccess_def)

text \<open>
  Claim C9. When the enumeration of cameras returns no device, \<open>initializeScanner\<close>
  only reports the "no camera" message and switches to manual mode: it constructs no
  decoder and starts no session. After any change that made the effect run on an open
  scanner in camera mode, the scanner is open in manual mode with the message shown, no
  session was started, and a manual submission of a non-blank text hands the trimmed
  text to \<open>onScan\<close>.
\<close>

theorem no_camera_manual_mode:
  assumes "deps new \<noteq> deps old" and "isOpen new" and "scannerMode new = Camera"
  shows "initializeScanner (Resolved []) started s0
           = s0\<lparr>cameras := [], error := no_camera_message, scannerMode := Input\<rparr>
     \<and> scannerMode (commit (Resolved []) started old new) = Input
     \<and> shown_error (commit (Resolved []) started old new) = Some no_camera_message
     \<and> isOpen (commit (Resolved []) started old new)
     \<and> \<not> isScanning (commit (Resolved []) started old new)
     \<and> html5QrCodeRef (commit (Resolved []) started old new) = None
     \<and> constructed (commit (Resolved []) started old new) = constructed new
     \<and> set (running (commit (Resolved []) started old new)) \<subseteq> set (running new)
     \<and> (\<forall>text. trim text \<noteq> [] \<longrightarrow>
           scanned (run (commit (Resolved []) started old new) [TypeManual text, ManualSubmit])
             = scanned new @ [trim text])"
proof -
  let ?s = "commit (Resolved []) started old new"
  note eq = commit_no_devices_eq [OF assms, of started]
  have c0: "initializeScanner (Resolved []) started s0
           = s0\<lparr>cameras := [], error := no_camera_message, scannerMode := Input\<rparr>"
    by (rule initializeScanner_no_devices)
  have c1: "scannerMode ?s = Input" by (simp add: eq)
  have c3: "isOpen ?s" using assms(2) by (simp add: eq cleanup_fields)
  have c2: "shown_error ?s = Some no_camera_message"
    using c3 by (simp add: shown_error_def) (simp add: eq no_camera_message_def)
  have c4: "\<not> isScanning ?s" by (simp add: eq cleanup_fields)
  have c5: "html5QrCodeRef ?s = None" by (simp add: eq cleanup_fields)
  have c6: "constructed ?s = constructed new" by (simp add: eq cleanup_fields)
  have c7: "set (running ?s) \<subseteq> set (running new)"
    using cleanup_running [of "effect_isScanning new" new] by (simp add: eq)
  have c8: "scanned (run ?s [TypeManual b, ManualSubmit]) = scanned new @ [trim b]"
    if "trim b \<noteq> []" for b
    using manual_submit_delivers [OF c3 c1 that] by (simp add: commit_scanned)
  from c0 c1 c2 c3 c4 c5 c6 c7 c8 show ?thesis by blast
qed

theorem no_camera_manual_mode_witness:
  "shown_error (step mounted (Open (Resolved []) True)) = Some no_camera_message
   \<and> scannerMode (step mounted (Open (Resolved []) True)) = Input
   \<and> running (step mounted (Open (Resolved []) True)) = []
   \<and> scanned (run mounted [Open (Resolved []) True, TypeManual '' 222 '', ManualSubmit]) = [''222'']
   \<and> scanned (run mounted [Open (Resolved []) True,
                TypeManual [CHR 0xA0, CHR ''3'', CHR ''3'', CHR ''3'', CHR 0xA0, CHR 0x09], ManualSubmit]) = [''333'']
   \<and> scanned (run mounted [Open (Resolved []) True, TypeManual [CHR 0xA0], ManualSubmit]) = []"
proof -
  let ?new = "mounted\<lparr>isOpen := True\<rparr>"
  have a: "deps ?new \<noteq> deps mounted" by (simp add: deps_def mounted_def)
  have b: "isOpen ?new" by simp
  have c: "scannerMode ?new = Camera" by (simp add: mounted_def)
  have t: "trim '' 222 '' = ''222''" by code_simp
  have u: "trim [CHR 0xA0, CHR ''3'', CHR ''3'', CHR ''3'', CHR 0xA0, CHR 0x09] = ''333''" by code_simp
  have blank: "scanned (run mounted [Open (Resolved []) True, TypeManual [CHR 0xA0], ManualSubmit]) = []"
    by code_simp
  have r: "running ?new = []" and s: "scanned ?new = []" by (simp_all add: mounted_def)
  note th = no_camera_manual_mode [OF a b c, of True]
  from th have "shown_error (commit (Resolved []) True mounted ?new) = Some no_camera_message"
    and "scannerMode (commit (Resolved []) True mounted ?new) = Input"
    and "set (running (commit (Resolved []) True mounted ?new)) \<subseteq> set (running ?new)"
    and "trim '' 222 '' \<noteq> [] \<longrightarrow>
           scanned (run (commit (Resolved []) True mounted ?new) [TypeManual '' 222 '', ManualSubmit])
             = scanned ?new @ [trim '' 222 '']"
    and "trim [CHR 0xA0, CHR ''3'', CHR ''3'', CHR ''3'', CHR 0xA0, CHR 0x09] \<noteq> [] \<longrightarrow>
           scanned (run (commit (Resolved []) True mounted ?new)
              [TypeManual [CHR 0xA0, CHR ''3'', CHR ''3'', CHR ''3'', CHR 0xA0, CHR 0x09], ManualSubmit])
             = scanned ?new @ [trim [CHR 0xA0, CHR ''3'', CHR ''3'', CHR ''3'', CHR 0xA0, CHR 0x09]]"
    by blast+
  then have "shown_error (step mounted (Open (Resolved []) True)) = Some no_camera_message
   \<and> scannerMode (step mounted (Open (Resolved []) True)) = Input
   \<and> running (step mounted (Open (Resolved []) True)) = []
   \<and> scanned (run mounted [Open (Resolved []) True, TypeManual '' 222 '', ManualSubmit]) = [''222'']
   \<and> scanned (run mounted [Open (Resolved []) True,
                TypeManual [CHR 0xA0, CHR ''3'', CHR ''3'', CHR ''3'', CHR 0xA0, CHR 0x09], ManualSubmit]) = [''333'']"
    by (simp add: t u r s run_def)
  with blank show ?thesis by blast
qed

text \<open>
  Claim C7 says that on every exit path a started session is stopped and cleared before
  a new one starts or the component goes away. The code does not do that. The clean-up
  function kept by the effect reads the \<open>isScanning\<close> of the render in which the
  effect ran, which is false, since \<open>setIsScanning(true)\<close> comes later and does not
  re-run the effect; so it skips \<open>stop()\<close> and \<open>clear()\<close> and forgets the instance.
  After a successful decode, after a switch to manual mode and after an unmount the
  session of instance 0 is still running; after the choice of another camera a second
  session runs beside the first.
\<close>

theorem session_left_running:
  "(let s = run mounted [Open (Resolved [back_camera]) True, Decode ''111'']
    in \<not> isOpen s \<and> scanned s = [''111''] \<and> running s = [(0, ''cam0'')]
       \<and> cleared s = [] \<and> html5QrCodeRef s = None)
   \<and> (let s = run mounted [Open (Resolved [back_camera]) True, SetMode Input Rejected False]
      in scannerMode s = Input \<and> running s = [(0, ''cam0'')] \<and> cleared s = []
         \<and> html5QrCodeRef s = None)
   \<and> (let s = run mounted [Open (Resolved [back_camera]) True, Unmount]
      in running s = [(0, ''cam0'')] \<and> cleared s = [] \<and> html5QrCodeRef s = None)
   \<and> (let s = run mounted [Open (Resolved [back_camera, front_camera]) True,
                  SelectCamera ''cam1'' (Resolved [back_camera, front_camera]) True]
      in running s = [(0, ''cam0''), (1, ''cam1'')] \<and> cleared s = []
         \<and> html5QrCodeRef s = Some 1)"
  by code_simp

end
